theory Spec2Isabelle
  imports Main "HOL-Library.Sublist"
begin

section \<open>Python strings\<close>

text \<open>
  A Python \<open>str\<close> is a sequence of Unicode code points, so a string is a list of
  natural numbers here and not a list of 8-bit characters. \<open>ustr\<close> turns an ASCII
  literal of the source into its code points.
\<close>

type_synonym str = "nat list"

definition ustr :: "string \<Rightarrow> str" where
  "ustr s = map of_char s"

text \<open>
  \<open>str.lower()\<close>. On the blocks Basic Latin and Latin-1 Supplement (code points below
  U+0100) the lowercase mapping is written out: the letters A to Z and U+00C0 to U+00DE,
  the multiplication sign U+00D7 apart, move up by 32, every other code point stays.
  From U+0100 on the mapping comes from the Unicode Character Database of the
  interpreter, which is no part of the repository: it is the parameter \<open>ucd\<close>, given
  the whole string and the index, since the lowercase form of a capital sigma depends
  on its neighbours, and returning a string, since one code point may become several.
\<close>

type_synonym ucd_lower = "str \<Rightarrow> nat \<Rightarrow> str"

definition latin1_lower :: "nat \<Rightarrow> nat" where
  "latin1_lower c =
     (if (0x41 \<le> c \<and> c \<le> 0x5A) \<or> (0xC0 \<le> c \<and> c \<le> 0xDE \<and> c \<noteq> 0xD7)
      then c + 32 else c)"

definition lower_at :: "ucd_lower \<Rightarrow> str \<Rightarrow> nat \<Rightarrow> str" where
  "lower_at ucd s i = (if s ! i < 0x100 then [latin1_lower (s ! i)] else ucd s i)"

definition lower :: "ucd_lower \<Rightarrow> str \<Rightarrow> str" where
  "lower ucd s = concat (map (lower_at ucd s) [0..<length s])"

text \<open>
  \<open>str.upper()\<close>, which the source never calls: it is here to state what a case
  variant of a query is. Below U+0100 the letters a to z and U+00E0 to U+00FE, the
  division sign U+00F7 apart, move down by 32; the sharp s U+00DF becomes the two
  letters SS, the micro sign U+00B5 becomes U+039C and U+00FF becomes U+0178. The
  mapping from U+0100 on is the parameter.
\<close>

type_synonym ucd_upper = "nat \<Rightarrow> str"

definition latin1_upper :: "nat \<Rightarrow> str" where
  "latin1_upper c =
     (if (0x61 \<le> c \<and> c \<le> 0x7A) \<or> (0xE0 \<le> c \<and> c \<le> 0xFE \<and> c \<noteq> 0xF7)
      then [c - 32]
      else if c = 0xDF then [0x53, 0x53]
      else if c = 0xB5 then [0x39C]
      else if c = 0xFF then [0x178]
      else [c])"

definition upper :: "ucd_upper \<Rightarrow> str \<Rightarrow> str" where
  "upper ucd s = concat (map (\<lambda>c. if c < 0x100 then latin1_upper c else ucd c) s)"

text \<open>
  \<open>str.isspace()\<close> on one code point: the white space that \<open>str.strip()\<close> removes
  when it is called without an argument.
\<close>

definition isspace :: "nat \<Rightarrow> bool" where
  "isspace c =
     ((0x09 \<le> c \<and> c \<le> 0x0D) \<or> (0x1C \<le> c \<and> c \<le> 0x20) \<or> c = 0x85 \<or> c = 0xA0
      \<or> c = 0x1680 \<or> (0x2000 \<le> c \<and> c \<le> 0x200A) \<or> c = 0x2028 \<or> c = 0x2029
      \<or> c = 0x202F \<or> c = 0x205F \<or> c = 0x3000)"

definition strip :: "str \<Rightarrow> str" where
  "strip s = rev (dropWhile isspace (rev (dropWhile isspace s)))"

text \<open>
  The slice \<open>s[a:b]\<close>: a negative index counts from the end, and an index beyond
  either end is clamped to it.
\<close>

definition slice_index :: "nat \<Rightarrow> int \<Rightarrow> nat" where
  "slice_index n i = (if i < 0 then nat (max 0 (int n + i)) else min n (nat i))"

definition slice :: "int \<Rightarrow> int \<Rightarrow> 'a list \<Rightarrow> 'a list" where
  "slice a b s = drop (slice_index (length s) a) (take (slice_index (length s) b) s)"

text \<open>\<open>sep.join(xs)\<close>, and \<open>str(n)\<close> for an integer that is not negative.\<close>

fun join :: "str \<Rightarrow> str list \<Rightarrow> str" where
  "join sep [] = []"
| "join sep [x] = x"
| "join sep (x # y # ys) = x @ sep @ join sep (y # ys)"

fun str_of_nat :: "nat \<Rightarrow> str" where
  "str_of_nat n = (if n < 10 then [48 + n] else str_of_nat (n div 10) @ [48 + n mod 10])"

declare str_of_nat.simps [simp del]

text \<open>
  Reading a decimal numeral back, to say that the numeral \<open>str_of_nat\<close> writes is the
  number it was given. The source has no such function.
\<close>

definition decimal :: "str \<Rightarrow> nat" where
  "decimal s = foldl (\<lambda>n c. 10 * n + (c - 48)) 0 s"

text \<open>
  What it is for a string to be the decimal numeral of a number, said without
  \<open>str_of_nat\<close>: the string is not empty, each of its code points is one of the digits
  U+0030 to U+0039, it does not start with the digit zero unless it is that digit alone,
  and read as a decimal it is the number.
\<close>

definition is_decimal_numeral :: "nat \<Rightarrow> str \<Rightarrow> bool" where
  "is_decimal_numeral n s =
     (s \<noteq> [] \<and> list_all (\<lambda>c. 48 \<le> c \<and> c \<le> 57) s \<and> (length s = 1 \<or> hd s \<noteq> 48)
      \<and> decimal s = n)"

section \<open>Errors\<close>

text \<open>
  An exception that leaves a function is a value: a tool call returns either the
  exception raised or its text.
\<close>

datatype error =
    AttributeError
  | ValueError
  | OperationalError
  | OtherException str

section \<open>Stripping the Markdown fence\<close>

text \<open>
  \<open>remove_markdown_code_block\<close>. What the function prints to standard output is not
  modelled.
\<close>

definition remove_markdown_code_block :: "str \<Rightarrow> str" where
  "remove_markdown_code_block sql_code =
     (if prefix (ustr ''```sql'') sql_code \<and> suffix (ustr ''```'') sql_code
      then strip (slice 6 (- 3) sql_code)
      else sql_code)"

section \<open>The fallback tool\<close>

definition handle_unexpected_query :: "str \<Rightarrow> error + str" where
  "handle_unexpected_query query =
     Inr (ustr ''I'm sorry, I couldn't understand your request. Could you please rephrase or provide more information?'')"

section \<open>The dataset and the session\<close>

text \<open>
  The dataset is a pandas \<open>DataFrame\<close>: its column labels in order, and its rows.
  \<open>df.shape\<close> is the number of rows and the number of columns. How pandas renders
  \<open>df.describe().to_html()\<close> and \<open>df.head().to_string()\<close> is no part of the
  repository: the two renderings are parameters, and the first may raise.
\<close>

datatype cell = Number int | Text str | Missing

record dataframe =
  df_columns :: "str list"
  df_rows :: "cell list list"

definition shape :: "dataframe \<Rightarrow> nat \<times> nat" where
  "shape d = (length (df_rows d), length (df_columns d))"

record pandas =
  describe_to_html :: "dataframe \<Rightarrow> error + str"
  head_to_string :: "dataframe \<Rightarrow> str"

text \<open>
  The attributes of \<open>st.session_state\<close> that the tools read and write. The
  application initialises every one of them before a tool runs, as the test
  \<open>st.session_state.engine is None\<close> of the source expects; \<open>None\<close> here is
  Python's \<open>None\<close>. An engine is known by its identity.
\<close>

datatype engine = Engine nat

record session_state =
  engine :: "engine option"
  df :: "dataframe option"
  columns :: "str list option"

section \<open>The dataset describer\<close>

text \<open>
  The four answers of \<open>describe_dataset\<close> that read the dataset, and the message
  of its last branch. Calling a method of \<open>None\<close> raises \<open>AttributeError\<close>. The
  code point 10 is the line feed of the source's literals.
\<close>

definition summary_statistics :: "pandas \<Rightarrow> dataframe option \<Rightarrow> error + str" where
  "summary_statistics pd f =
     (case f of
        None \<Rightarrow> Inl AttributeError
      | Some d \<Rightarrow>
          (case describe_to_html pd d of
             Inl e \<Rightarrow> Inl e
           | Inr description \<Rightarrow>
               Inr (ustr ''Here's a statistical description of the numerical columns in the dataset:''
                    @ [10] @ description)))"

definition column_listing :: "dataframe option \<Rightarrow> error + str" where
  "column_listing f =
     (case f of
        None \<Rightarrow> Inl AttributeError
      | Some d \<Rightarrow>
          Inr (ustr ''The dataset contains the following columns: ''
               @ join (ustr '', '') (df_columns d)))"

definition row_column_counts :: "dataframe option \<Rightarrow> error + str" where
  "row_column_counts f =
     (case f of
        None \<Rightarrow> Inl AttributeError
      | Some d \<Rightarrow>
          (case shape d of
             (rows, cols) \<Rightarrow>
               Inr (ustr ''The dataset has '' @ str_of_nat rows @ ustr '' rows and ''
                    @ str_of_nat cols @ ustr '' columns.'')))"

definition first_rows :: "pandas \<Rightarrow> dataframe option \<Rightarrow> error + str" where
  "first_rows pd f =
     (case f of
        None \<Rightarrow> Inl AttributeError
      | Some d \<Rightarrow>
          Inr (ustr ''Here's a sample of the first few rows of the dataset:''
               @ [10] @ head_to_string pd d))"

definition clarification :: str where
  "clarification =
     ustr ''I'm sorry, I couldn't understand your request about the dataset. Could you please be more specific? You can ask about the dataset's description, statistics, columns, shape, or a sample of the data.''"

text \<open>
  \<open>describe_dataset\<close>. The test \<open>k in query.lower()\<close> on strings is \<open>sublist\<close>:
  the keyword occurs in the lowercase form as a run of consecutive code points. What
  the function prints to standard output is not modelled.
\<close>

definition describe_dataset :: "pandas \<Rightarrow> ucd_lower \<Rightarrow> session_state \<Rightarrow> str \<Rightarrow> error + str" where
  "describe_dataset pd ucd st query =
     (let f = df st in
      if sublist (ustr ''describe'') (lower ucd query)
         \<or> sublist (ustr ''statistics'') (lower ucd query)
      then summary_statistics pd f
      else if sublist (ustr ''columns'') (lower ucd query)
         \<or> sublist (ustr ''fields'') (lower ucd query)
      then column_listing f
      else if sublist (ustr ''shape'') (lower ucd query)
         \<or> sublist (ustr ''size'') (lower ucd query)
      then row_column_counts f
      else if sublist (ustr ''sample'') (lower ucd query)
      then first_rows pd f
      else Inr clarification)"

text \<open>
  The describer as the specification words it: an ordered list of keyword sets, each
  with its branch, read from the front until a keyword of a set occurs in the lowercase
  form of the question; the clarification message when none does.
\<close>

datatype branch = Statistics | Columns | Shape | Sample | Clarification

definition spec_keyword_order :: "(str list \<times> branch) list" where
  "spec_keyword_order =
     [([ustr ''describe'', ustr ''statistics''], Statistics),
      ([ustr ''columns'', ustr ''fields''], Columns),
      ([ustr ''shape'', ustr ''size''], Shape),
      ([ustr ''sample''], Sample)]"

fun spec_first_match :: "(str list \<times> branch) list \<Rightarrow> str \<Rightarrow> branch" where
  "spec_first_match [] q = Clarification"
| "spec_first_match ((keywords, b) # rest) q =
     (if list_ex (\<lambda>k. sublist k q) keywords then b else spec_first_match rest q)"

definition spec_branch_answer :: "pandas \<Rightarrow> session_state \<Rightarrow> branch \<Rightarrow> error + str" where
  "spec_branch_answer pd st b =
     (case b of
        Statistics \<Rightarrow> summary_statistics pd (df st)
      | Columns \<Rightarrow> column_listing (df st)
      | Shape \<Rightarrow> row_column_counts (df st)
      | Sample \<Rightarrow> first_rows pd (df st)
      | Clarification \<Rightarrow> Inr clarification)"

section \<open>The tabular store\<close>

text \<open>
  What outlives a session: the entry that \<open>st.cache_resource\<close> keeps for
  \<open>get_sqlite_engine\<close>, shared by every session and rerun of the server; the tables
  of the file \<open>db.db\<close> that every engine opens; the number of engines created so
  far, which names the next one; and the trace of the calls made to the outside world.

  SQLite compares the names of tables and of columns without regard to the case of the
  ASCII letters, and of no other letters: \<open>sqlite_fold\<close>. The tables are kept under
  their folded names.

  The last field is the part of the backend that the repository does not show. pandas
  and SQLite refuse some frames for reasons of their own installation (more columns
  than the library allows, an integer beyond 64 bits, a disk that is full):
  \<open>backend_refuses\<close> gives, for such a frame, the exception raised and the table that
  the failed write leaves in the file, if any, and \<open>None\<close> for a frame that is not
  refused for such a reason.
\<close>

datatype effect = LoadCsv | CreateEngine | DropTable str | ToSql str

definition sqlite_fold :: "nat \<Rightarrow> nat" where
  "sqlite_fold c = (if 0x41 \<le> c \<and> c \<le> 0x5A then c + 32 else c)"

record server =
  resource_cache :: "engine option"
  database :: "str \<rightharpoonup> dataframe"
  engines :: nat
  effects :: "effect list"
  backend_refuses :: "dataframe \<Rightarrow> (error \<times> dataframe option) option"

text \<open>
  \<open>create_engine("sqlite:///db.db")\<close> returns a new engine.
  \<open>DROP TABLE IF EXISTS\<close> removes the table when there is one.

  \<open>df.to_sql\<close> with \<open>index=False\<close> and pandas' default \<open>if_exists='fail'\<close>
  raises \<open>ValueError\<close> when the table exists. Otherwise it has the table created with
  the columns of the frame, and SQLite creates no table without a column and no table
  with two columns of the same folded name, such as \<open>a\<close> and \<open>A\<close>: the call raises
  \<open>OperationalError\<close> and the file has no such table afterwards. (For two columns of
  the very same name the exception may come from SQLAlchemy before SQLite is asked,
  depending on its version; the model does not tell the two apart.) Then what else the
  backend refuses is refused. Otherwise the table holds the columns and the rows of the
  frame.

  \<open>select_count\<close> is \<open>SELECT COUNT(*)\<close> on a table, \<open>None\<close> when the table is
  missing.
\<close>

definition create_engine :: "server \<Rightarrow> engine \<times> server" where
  "create_engine w =
     (Engine (engines w), w\<lparr>engines := Suc (engines w), effects := effects w @ [CreateEngine]\<rparr>)"

definition drop_table_if_exists :: "str \<Rightarrow> server \<Rightarrow> server" where
  "drop_table_if_exists name w =
     w\<lparr>database := (database w)(map sqlite_fold name := None),
       effects := effects w @ [DropTable name]\<rparr>"

definition sqlite_creates :: "str list \<Rightarrow> bool" where
  "sqlite_creates cols = (cols \<noteq> [] \<and> distinct (map (map sqlite_fold) cols))"

definition to_sql :: "str \<Rightarrow> dataframe \<Rightarrow> server \<Rightarrow> error option \<times> server" where
  "to_sql name d w =
     (let w0 = w\<lparr>effects := effects w @ [ToSql name]\<rparr> in
      case database w (map sqlite_fold name) of
        Some t \<Rightarrow> (Some ValueError, w0)
      | None \<Rightarrow>
          if \<not> sqlite_creates (df_columns d) then (Some OperationalError, w0)
          else
            (case backend_refuses w d of
               Some (err, left) \<Rightarrow>
                 (Some err, w0\<lparr>database := (database w)(map sqlite_fold name := left)\<rparr>)
             | None \<Rightarrow>
                 (None, w0\<lparr>database := (database w)(map sqlite_fold name \<mapsto> d)\<rparr>)))"

definition select_count :: "str \<Rightarrow> server \<Rightarrow> nat option" where
  "select_count name w =
     map_option (\<lambda>t. length (df_rows t)) (database w (map sqlite_fold name))"

text \<open>
  The body of \<open>get_sqlite_engine\<close>. \<open>Tools.load_csv_files\<close> is not among the
  sources: what it returns for the session, a frame or an exception, is the parameter
  \<open>load\<close>. An exception leaves the function with the state as it is by then. What
  the body prints is not modelled.
\<close>

definition get_sqlite_engine_body ::
    "error + dataframe \<Rightarrow> server \<Rightarrow> session_state \<Rightarrow> (error + engine) \<times> server \<times> session_state" where
  "get_sqlite_engine_body load w st =
     (case engine st of
        None \<Rightarrow>
          (let w0 = w\<lparr>effects := effects w @ [LoadCsv]\<rparr> in
           case load of
             Inl err \<Rightarrow> (Inl err, w0, st)
           | Inr d \<Rightarrow>
               (let st1 = st\<lparr>df := Some d\<rparr>;
                    st2 = st1\<lparr>columns := Some (df_columns d)\<rparr>;
                    (e, w1) = create_engine w0;
                    w2 = drop_table_if_exists (ustr ''db'') w1;
                    w3 = drop_table_if_exists (ustr ''db'') w2
                in case to_sql (ustr ''db'') d w3 of
                     (Some err, w4) \<Rightarrow> (Inl err, w4, st2)
                   | (None, w4) \<Rightarrow> (Inr e, w4, st2\<lparr>engine := Some e\<rparr>)))
      | Some e \<Rightarrow> (Inr e, w, st))"

text \<open>
  \<open>get_sqlite_engine\<close> as the module exports it, under \<open>@st.cache_resource\<close>: when
  the cache holds an entry, the entry is returned and the body does not run; otherwise
  the body runs, and what it returns is cached. An exception is not cached.
\<close>

definition get_sqlite_engine ::
    "error + dataframe \<Rightarrow> server \<Rightarrow> session_state \<Rightarrow> (error + engine) \<times> server \<times> session_state" where
  "get_sqlite_engine load w st =
     (case resource_cache w of
        Some e \<Rightarrow> (Inr e, w, st)
      | None \<Rightarrow>
          (case get_sqlite_engine_body load w st of
             (Inr e, w', st') \<Rightarrow> (Inr e, w'\<lparr>resource_cache := Some e\<rparr>, st')
           | (Inl err, w', st') \<Rightarrow> (Inl err, w', st')))"

section \<open>A sample session\<close>

text \<open>A dataset of two columns and three rows, and a session that holds it.\<close>

definition sample_frame :: dataframe where
  "sample_frame =
     \<lparr>df_columns = [ustr ''name'', ustr ''age''],
      df_rows = [[Text (ustr ''Ann''), Number 31],
                 [Text (ustr ''Bob''), Number 27],
                 [Text (ustr ''Eve''), Missing]]\<rparr>"

definition sample_session :: session_state where
  "sample_session =
     \<lparr>engine = None, df = Some sample_frame, columns = Some (df_columns sample_frame)\<rparr>"

text \<open>A dataset of ten columns and twelve rows, and a session that holds it.\<close>

definition long_frame :: dataframe where
  "long_frame =
     \<lparr>df_columns = map (\<lambda>i. ustr ''c'' @ str_of_nat i) [0..<10],
      df_rows = replicate 12 (replicate 10 (Number 0))\<rparr>"

definition long_session :: session_state where
  "long_session =
     \<lparr>engine = None, df = Some long_frame, columns = Some (df_columns long_frame)\<rparr>"

text \<open>
  A server that has served nobody yet, whose file \<open>db.db\<close> still holds a table
  \<open>db\<close> of an earlier run and whose backend refuses nothing for a reason of its
  own; a session that has just begun; the dataset that a second visitor uploads; and
  the dataset of a file whose header is \<open>a,A\<close>.
\<close>

definition stale_frame :: dataframe where
  "stale_frame = \<lparr>df_columns = [ustr ''city''], df_rows = [[Text (ustr ''Oslo'')]]\<rparr>"

definition new_server :: server where
  "new_server =
     \<lparr>resource_cache = None, database = [ustr ''db'' \<mapsto> stale_frame], engines = 0,
      effects = [], backend_refuses = (\<lambda>d. None)\<rparr>"

definition new_session :: session_state where
  "new_session = \<lparr>engine = None, df = None, columns = None\<rparr>"


definition second_frame :: dataframe where
  "second_frame =
     \<lparr>df_columns = [ustr ''item'', ustr ''price'', ustr ''stock''],
      df_rows = [[Text (ustr ''pen''), Number 2, Number 40]]\<rparr>"

section \<open>Properties of the string functions\<close>

lemma concat_singletons:
  "(\<And>i. i < length s \<Longrightarrow> f i = [g (s ! i)]) \<Longrightarrow> concat (map f [0..<length s]) = map g s"
proof -
  assume a: "\<And>i. i < length s \<Longrightarrow> f i = [g (s ! i)]"
  have "map f [0..<length s] = map (\<lambda>i. [g (s ! i)]) [0..<length s]"
    by (rule map_cong) (simp_all add: a)
  then have "concat (map f [0..<length s]) = concat (map (\<lambda>i. [g (s ! i)]) [0..<length s])"
    by (rule arg_cong)
  also have "\<dots> = map (\<lambda>i. g (s ! i)) [0..<length s]"
    by (rule concat_map_singleton)
  also have "\<dots> = map g (map (nth s) [0..<length s])"
    by simp
  also have "\<dots> = map g s"
    by (simp only: map_nth)
  finally show ?thesis .
qed

lemma lower_latin1:
  assumes "\<forall>c\<in>set s. c < 0x100"
  shows "lower ucd s = map latin1_lower s"
  unfolding lower_def
  by (rule concat_singletons) (use assms in \<open>simp add: lower_at_def\<close>)

lemma lower_append_stable:
  assumes w: "\<forall>c\<in>set w. c < 0x100 \<and> latin1_lower c = c"
  shows "\<exists>l r. lower ucd (pre @ w @ post) = l @ w @ r"
proof -
  let ?s = "pre @ w @ post"
  let ?a = "length pre"
  let ?b = "length pre + length w"
  have split: "[0..<length ?s] = [0..<?a] @ [?a..<?b] @ [?b..<length ?s]"
    by (metis append_assoc length_append le_add1 upt_add_eq_append zero_le)
  have mid: "map (lower_at ucd ?s) [?a..<?b] = map (\<lambda>i. [?s ! i]) [?a..<?b]"
  proof (rule map_cong)
    fix i assume "i \<in> set [?a..<?b]"
    then have i: "?a \<le> i" "i < ?b" by simp_all
    then have less: "i - ?a < length w"
      by linarith
    from i less have "?s ! i = w ! (i - ?a)"
      by (simp add: nth_append)
    moreover from less have "w ! (i - ?a) \<in> set w"
      by (rule nth_mem)
    ultimately show "lower_at ucd ?s i = [?s ! i]"
      using w by (simp add: lower_at_def)
  qed simp
  have "concat (map (\<lambda>i. [?s ! i]) [?a..<?b]) = map (nth ?s) [?a..<?b]"
    by (simp add: concat_map_singleton)
  also have "\<dots> = w"
    by (rule map_upt_eqI) (simp_all add: nth_append)
  finally have "concat (map (lower_at ucd ?s) [?a..<?b]) = w"
    by (simp only: mid)
  then have "lower ucd ?s = concat (map (lower_at ucd ?s) [0..<?a]) @ w
      @ concat (map (lower_at ucd ?s) [?b..<length ?s])"
    unfolding lower_def by (simp only: split map_append concat_append)
  then show ?thesis by blast
qed

lemma sublist_lower:
  assumes "sublist w q" and "\<forall>c\<in>set w. c < 0x100 \<and> latin1_lower c = c"
  shows "sublist w (lower ucd q)"
proof -
  from assms(1) obtain pre post where "q = pre @ w @ post"
    by (auto simp: sublist_def)
  with lower_append_stable [OF assms(2), of ucd pre post] show ?thesis
    by (auto simp: sublist_def)
qed

lemma ustr_latin1: "\<forall>c\<in>set (ustr s). c < 0x100"
proof
  fix c assume "c \<in> set (ustr s)"
  then obtain k :: char where "c = of_char k"
    by (auto simp: ustr_def)
  moreover have "(of_char k :: nat) mod 256 < 256"
    by simp
  ultimately show "c < 0x100"
    by (simp only: of_char_mod_256)
qed

lemma lower_ustr: "lower ucd (ustr s) = map latin1_lower (ustr s)"
  by (rule lower_latin1) (rule ustr_latin1)

lemma rev_dropWhile_takeWhile:
  "xs = rev (dropWhile P (rev xs)) @ rev (takeWhile P (rev xs))"
  by (metis rev_append rev_rev_ident takeWhile_dropWhile_id)

lemma strip_decomposition:
  "\<exists>l r. s = l @ strip s @ r \<and> list_all isspace l \<and> list_all isspace r"
proof -
  define t where "t = dropWhile isspace s"
  have s: "s = takeWhile isspace s @ t"
    by (simp add: t_def)
  have t: "t = strip s @ rev (takeWhile isspace (rev t))"
    unfolding strip_def t_def by (rule rev_dropWhile_takeWhile)
  have l: "list_all isspace (takeWhile isspace s)"
    by (simp add: list_all_iff) (meson set_takeWhileD)
  have r: "list_all isspace (rev (takeWhile isspace (rev t)))"
    by (simp add: list_all_iff) (meson set_takeWhileD)
  from s t have "s = takeWhile isspace s @ strip s @ rev (takeWhile isspace (rev t))"
    by simp
  with l r show ?thesis
    by blast
qed

lemma strip_ends:
  assumes "strip s \<noteq> []"
  shows "\<not> isspace (hd (strip s)) \<and> \<not> isspace (last (strip s))"
proof -
  define t where "t = dropWhile isspace s"
  define u where "u = dropWhile isspace (rev t)"
  have st: "strip s = rev u"
    by (simp add: strip_def t_def u_def)
  with assms have u: "u \<noteq> []"
    by simp
  then have "\<not> isspace (hd u)"
    unfolding u_def by (rule hd_dropWhile)
  with u st have last: "\<not> isspace (last (strip s))"
    by (simp add: last_rev)
  have t: "t = rev u @ rev (takeWhile isspace (rev t))"
    unfolding u_def by (rule rev_dropWhile_takeWhile)
  with u have tne: "t \<noteq> []"
    by auto
  from t u have "hd t = hd (rev u)"
    by (metis hd_append2 rev_is_Nil_conv)
  moreover from tne have "\<not> isspace (hd t)"
    unfolding t_def by (rule hd_dropWhile)
  ultimately have "\<not> isspace (hd (strip s))"
    by (simp add: st)
  with last show ?thesis
    by simp
qed

lemma fence_bounds:
  assumes p: "prefix (ustr ''```sql'') s" and q: "suffix (ustr ''```'') s"
  shows "\<exists>inner. s = ustr ''```sql'' @ inner @ ustr ''```''"
proof -
  from p obtain t where s: "s = ustr ''```sql'' @ t"
    by (auto simp: prefix_def)
  from q s have "suffix (ustr ''```'') t
      \<or> (\<exists>x. ustr ''```'' = x @ t \<and> suffix x (ustr ''```sql''))"
    by (simp add: suffix_append)
  then have "suffix (ustr ''```'') t"
  proof
    assume "suffix (ustr ''```'') t"
    then show ?thesis .
  next
    assume "\<exists>x. ustr ''```'' = x @ t \<and> suffix x (ustr ''```sql'')"
    then obtain x where x: "ustr ''```'' = x @ t" and sx: "suffix x (ustr ''```sql'')"
      by blast
    have "x = []"
    proof (rule ccontr)
      assume ne: "x \<noteq> []"
      from sx obtain y where "ustr ''```sql'' = y @ x"
        by (auto simp: suffix_def)
      with ne have "last x = last (ustr ''```sql'')"
        by simp
      then have l: "last x = 108"
        by (simp add: ustr_def)
      from ne have "last x \<in> set x"
        by simp
      then have "last x \<in> set (ustr ''```'')"
        by (simp add: x)
      then have "last x = 96"
        by (simp add: ustr_def)
      with l show False
        by simp
    qed
    with x show ?thesis
      by simp
  qed
  then obtain inner where "t = inner @ ustr ''```''"
    by (auto simp: suffix_def)
  with s show ?thesis
    by blast
qed

lemma slice_between:
  "b \<noteq> [] \<Longrightarrow> slice (int (length a)) (- int (length b)) (a @ inner @ b) = inner"
  by (simp add: slice_def slice_index_def)

lemma slice_fenced:
  "slice 6 (- 3) (ustr ''```sql'' @ inner @ ustr ''```'') = inner"
  using slice_between [where a = "ustr ''```sql''" and b = "ustr ''```''" and inner = inner]
  by (simp add: ustr_def)

text \<open>
  C2. A string that starts with the marker \<open>```sql\<close> and ends with the marker
  \<open>```\<close> is the first marker, an inner content and the second marker, one after the
  other, and \<open>remove_markdown_code_block\<close> returns that inner content without its
  leading and trailing white space: the inner content is white space, then the result,
  then white space, and the result, unless it is empty, neither starts nor ends with a
  white-space code point. A string that lacks one of the two markers is returned as it
  is.
\<close>

theorem remove_markdown_code_block_fenced:
  "(prefix (ustr ''```sql'') s \<and> suffix (ustr ''```'') s \<longrightarrow>
      (\<exists>inner l r.
          s = ustr ''```sql'' @ inner @ ustr ''```''
        \<and> remove_markdown_code_block s = strip inner
        \<and> inner = l @ remove_markdown_code_block s @ r
        \<and> list_all isspace l \<and> list_all isspace r
        \<and> (remove_markdown_code_block s = []
            \<or> (\<not> isspace (hd (remove_markdown_code_block s))
               \<and> \<not> isspace (last (remove_markdown_code_block s))))))
   \<and> (\<not> (prefix (ustr ''```sql'') s \<and> suffix (ustr ''```'') s) \<longrightarrow>
        remove_markdown_code_block s = s)"
proof (intro conjI impI)
  assume b: "prefix (ustr ''```sql'') s \<and> suffix (ustr ''```'') s"
  then obtain inner where s: "s = ustr ''```sql'' @ inner @ ustr ''```''"
    using fence_bounds by blast
  from b have "remove_markdown_code_block s = strip (slice 6 (- 3) s)"
    by (simp add: remove_markdown_code_block_def)
  moreover have "slice 6 (- 3) s = inner"
    unfolding s by (rule slice_fenced)
  ultimately have res: "remove_markdown_code_block s = strip inner"
    by simp
  obtain l r where lr: "inner = l @ strip inner @ r" "list_all isspace l" "list_all isspace r"
    using strip_decomposition by blast
  have "strip inner = [] \<or> (\<not> isspace (hd (strip inner)) \<and> \<not> isspace (last (strip inner)))"
    using strip_ends by blast
  with s res lr show "\<exists>inner l r.
          s = ustr ''```sql'' @ inner @ ustr ''```''
        \<and> remove_markdown_code_block s = strip inner
        \<and> inner = l @ remove_markdown_code_block s @ r
        \<and> list_all isspace l \<and> list_all isspace r
        \<and> (remove_markdown_code_block s = []
            \<or> (\<not> isspace (hd (remove_markdown_code_block s))
               \<and> \<not> isspace (last (remove_markdown_code_block s))))"
    by metis
next
  assume "\<not> (prefix (ustr ''```sql'') s \<and> suffix (ustr ''```'') s)"
  then show "remove_markdown_code_block s = s"
    unfolding remove_markdown_code_block_def by (simp only: if_False)
qed

theorem remove_markdown_code_block_fenced_witness:
  "(prefix (ustr ''```sql'') (ustr ''```sql'' @ [10] @ ustr ''SELECT name FROM db '' @ [10] @ ustr ''```'')
     \<and> suffix (ustr ''```'') (ustr ''```sql'' @ [10] @ ustr ''SELECT name FROM db '' @ [10] @ ustr ''```''))
   \<and> (\<exists>inner l r.
          ustr ''```sql'' @ [10] @ ustr ''SELECT name FROM db '' @ [10] @ ustr ''```''
            = ustr ''```sql'' @ inner @ ustr ''```''
        \<and> ustr ''SELECT name FROM db'' = strip inner
        \<and> inner = l @ ustr ''SELECT name FROM db'' @ r
        \<and> list_all isspace l \<and> list_all isspace r)
   \<and> \<not> (prefix (ustr ''```sql'') (ustr ''SELECT name FROM db```'')
          \<and> suffix (ustr ''```'') (ustr ''SELECT name FROM db```''))
   \<and> remove_markdown_code_block (ustr ''SELECT name FROM db```'') = ustr ''SELECT name FROM db```''"
proof -
  let ?s = "ustr ''```sql'' @ [10] @ ustr ''SELECT name FROM db '' @ [10] @ ustr ''```''"
  let ?u = "ustr ''SELECT name FROM db```''"
  have bounded: "prefix (ustr ''```sql'') ?s \<and> suffix (ustr ''```'') ?s"
    by (simp add: ustr_def suffix_def)
  have "slice 6 (- 3) ?s = [10] @ ustr ''SELECT name FROM db '' @ [10]"
    using slice_fenced [of "[10] @ ustr ''SELECT name FROM db '' @ [10]"] by simp
  with bounded have
    "remove_markdown_code_block ?s = strip ([10] @ ustr ''SELECT name FROM db '' @ [10])"
    by (simp add: remove_markdown_code_block_def)
  also have "\<dots> = ustr ''SELECT name FROM db''"
    by (simp add: strip_def ustr_def isspace_def)
  finally have res: "remove_markdown_code_block ?s = ustr ''SELECT name FROM db''" .
  have unbounded: "\<not> (prefix (ustr ''```sql'') ?u \<and> suffix (ustr ''```'') ?u)"
    by (simp add: ustr_def)
  from bounded remove_markdown_code_block_fenced [of ?s]
  have "\<exists>inner l r.
          ?s = ustr ''```sql'' @ inner @ ustr ''```''
        \<and> remove_markdown_code_block ?s = strip inner
        \<and> inner = l @ remove_markdown_code_block ?s @ r
        \<and> list_all isspace l \<and> list_all isspace r"
    by blast
  then have first: "\<exists>inner l r.
          ?s = ustr ''```sql'' @ inner @ ustr ''```''
        \<and> ustr ''SELECT name FROM db'' = strip inner
        \<and> inner = l @ ustr ''SELECT name FROM db'' @ r
        \<and> list_all isspace l \<and> list_all isspace r"
    by (simp only: res)
  from unbounded remove_markdown_code_block_fenced [of ?u]
  have "remove_markdown_code_block ?u = ?u"
    by blast
  with bounded first unbounded show ?thesis
    by blast
qed

text \<open>
  C7. \<open>handle_unexpected_query\<close> returns the same apology for every query, whatever
  the query holds, and it returns: no query makes it raise.
\<close>

theorem handle_unexpected_query_fixed:
  "handle_unexpected_query query =
     Inr (ustr ''I'm sorry, I couldn't understand your request. Could you please rephrase or provide more information?'')
   \<and> handle_unexpected_query query = handle_unexpected_query query'"
  by (simp add: handle_unexpected_query_def)

section \<open>Properties of the dataset describer\<close>

lemma keyword_stable:
  "\<forall>c\<in>set (ustr ''describe''). c < 0x100 \<and> latin1_lower c = c"
  "\<forall>c\<in>set (ustr ''statistics''). c < 0x100 \<and> latin1_lower c = c"
  "\<forall>c\<in>set (ustr ''columns''). c < 0x100 \<and> latin1_lower c = c"
  "\<forall>c\<in>set (ustr ''fields''). c < 0x100 \<and> latin1_lower c = c"
  "\<forall>c\<in>set (ustr ''shape''). c < 0x100 \<and> latin1_lower c = c"
  "\<forall>c\<in>set (ustr ''size''). c < 0x100 \<and> latin1_lower c = c"
  "\<forall>c\<in>set (ustr ''sample''). c < 0x100 \<and> latin1_lower c = c"
  by (simp_all add: ustr_def latin1_lower_def)

lemma describe_dataset_refines:
  "describe_dataset pd ucd st q =
     spec_branch_answer pd st (spec_first_match spec_keyword_order (lower ucd q))"
  by (simp add: describe_dataset_def spec_keyword_order_def spec_branch_answer_def)

lemma describe_dataset_statistics:
  "sublist (ustr ''describe'') (lower ucd q) \<or> sublist (ustr ''statistics'') (lower ucd q)
   \<Longrightarrow> describe_dataset pd ucd st q = summary_statistics pd (df st)"
  by (simp add: describe_dataset_def)

text \<open>
  C1. \<open>describe_dataset\<close> answers as the ordered keyword list of the specification
  read from the front does: one branch for each question, the first whose keyword occurs
  in the lowercase form of the question. A question that holds \<open>describe\<close> together
  with \<open>sample\<close>, or together with \<open>columns\<close>, in itself or in its lowercase
  form, gets the summary statistics.
\<close>

theorem describe_dataset_first_match:
  "describe_dataset pd ucd st q =
     spec_branch_answer pd st (spec_first_match spec_keyword_order (lower ucd q))
   \<and> (sublist (ustr ''describe'') (lower ucd q) \<and> sublist (ustr ''sample'') (lower ucd q)
        \<longrightarrow> describe_dataset pd ucd st q = summary_statistics pd (df st))
   \<and> (sublist (ustr ''describe'') (lower ucd q) \<and> sublist (ustr ''columns'') (lower ucd q)
        \<longrightarrow> describe_dataset pd ucd st q = summary_statistics pd (df st))
   \<and> (sublist (ustr ''describe'') q \<and> sublist (ustr ''sample'') q
        \<longrightarrow> describe_dataset pd ucd st q = summary_statistics pd (df st))
   \<and> (sublist (ustr ''describe'') q \<and> sublist (ustr ''columns'') q
        \<longrightarrow> describe_dataset pd ucd st q = summary_statistics pd (df st))"
proof -
  have raw: "describe_dataset pd ucd st q = summary_statistics pd (df st)"
    if "sublist (ustr ''describe'') q"
  proof -
    from that have "sublist (ustr ''describe'') (lower ucd q)"
      using keyword_stable(1) by (rule sublist_lower)
    then show ?thesis
      by (simp add: describe_dataset_statistics)
  qed
  have low: "describe_dataset pd ucd st q = summary_statistics pd (df st)"
    if "sublist (ustr ''describe'') (lower ucd q)"
    using that by (simp add: describe_dataset_statistics)
  from raw low describe_dataset_refines [of pd ucd st q] show ?thesis
    by blast
qed

theorem describe_dataset_first_match_witness:
  "\<forall>pd ucd.
     sublist (ustr ''describe'') (lower ucd (ustr ''Describe a SAMPLE of the columns''))
   \<and> sublist (ustr ''sample'') (lower ucd (ustr ''Describe a SAMPLE of the columns''))
   \<and> sublist (ustr ''columns'') (lower ucd (ustr ''Describe a SAMPLE of the columns''))
   \<and> spec_first_match spec_keyword_order (lower ucd (ustr ''Describe a SAMPLE of the columns''))
       = Statistics
   \<and> describe_dataset pd ucd sample_session (ustr ''Describe a SAMPLE of the columns'')
       = summary_statistics pd (Some sample_frame)"
proof (intro allI)
  fix pd :: pandas and ucd :: ucd_lower
  let ?q = "ustr ''Describe a SAMPLE of the columns''"
  have low: "lower ucd ?q = ustr ''describe a sample of the columns''"
    by (simp add: lower_ustr) (simp add: ustr_def latin1_lower_def)
  have d: "sublist (ustr ''describe'') (lower ucd ?q)"
    unfolding low by (simp add: ustr_def sublist_Cons_right)
  have s: "sublist (ustr ''sample'') (lower ucd ?q)"
    unfolding low by (simp add: ustr_def sublist_Cons_right)
  have c: "sublist (ustr ''columns'') (lower ucd ?q)"
    unfolding low by (simp add: ustr_def sublist_Cons_right)
  from d have m: "spec_first_match spec_keyword_order (lower ucd ?q) = Statistics"
    by (simp add: spec_keyword_order_def)
  from d s describe_dataset_first_match [of pd ucd sample_session ?q]
  have "describe_dataset pd ucd sample_session ?q = summary_statistics pd (df sample_session)"
    by blast
  then have "describe_dataset pd ucd sample_session ?q = summary_statistics pd (Some sample_frame)"
    by (simp add: sample_session_def)
  with d s c m show
    "sublist (ustr ''describe'') (lower ucd ?q)
   \<and> sublist (ustr ''sample'') (lower ucd ?q)
   \<and> sublist (ustr ''columns'') (lower ucd ?q)
   \<and> spec_first_match spec_keyword_order (lower ucd ?q) = Statistics
   \<and> describe_dataset pd ucd sample_session ?q = summary_statistics pd (Some sample_frame)"
    by blast
qed


lemma decimal_str_of_nat: "decimal (str_of_nat n) = n"
proof (induction n rule: str_of_nat.induct)
  case (1 n)
  show ?case
  proof (cases "n < 10")
    case True
    then show ?thesis
      by (simp add: str_of_nat.simps [of n] decimal_def)
  next
    case False
    with 1 have "decimal (str_of_nat (n div 10)) = n div 10"
      by simp
    with False show ?thesis
      by (simp add: str_of_nat.simps [of n] decimal_def)
  qed
qed

lemma describe_dataset_counts:
  assumes "sublist (ustr ''shape'') (lower ucd q) \<or> sublist (ustr ''size'') (lower ucd q)"
    and "\<not> sublist (ustr ''describe'') (lower ucd q)"
    and "\<not> sublist (ustr ''statistics'') (lower ucd q)"
    and "\<not> sublist (ustr ''columns'') (lower ucd q)"
    and "\<not> sublist (ustr ''fields'') (lower ucd q)"
  shows "describe_dataset pd ucd st q = row_column_counts (df st)"
  using assms by (simp add: describe_dataset_def)

lemma decimal_snoc: "decimal (s @ [c]) = 10 * decimal s + (c - 48)"
  by (simp add: decimal_def)

lemma str_of_nat_not_Nil: "str_of_nat n \<noteq> []"
  by (subst str_of_nat.simps) simp

lemma str_of_nat_digits: "list_all (\<lambda>c. 48 \<le> c \<and> c \<le> 57) (str_of_nat n)"
proof (induction n rule: str_of_nat.induct)
  case (1 n)
  show ?case
  proof (cases "n < 10")
    case True
    then show ?thesis
      by (simp add: str_of_nat.simps [of n])
  next
    case False
    with 1 have "list_all (\<lambda>c. 48 \<le> c \<and> c \<le> 57) (str_of_nat (n div 10))"
      by simp
    moreover have "n mod 10 < 10"
      by simp
    ultimately show ?thesis
      using False by (simp add: str_of_nat.simps [of n])
  qed
qed

lemma str_of_nat_leading:
  "(n = 0 \<and> str_of_nat n = [48]) \<or> (0 < n \<and> hd (str_of_nat n) \<noteq> 48)"
proof (induction n rule: str_of_nat.induct)
  case (1 n)
  show ?case
  proof (cases "n < 10")
    case True
    then show ?thesis
      by (cases "n = 0") (simp_all add: str_of_nat.simps [of n] str_of_nat.simps [of 0])
  next
    case False
    then have pos: "0 < n div 10"
      by simp
    with 1 False have "hd (str_of_nat (n div 10)) \<noteq> 48"
      by auto
    with False show ?thesis
      by (simp add: str_of_nat.simps [of n] str_of_nat_not_Nil)
  qed
qed

lemma str_of_nat_is_decimal_numeral: "is_decimal_numeral n (str_of_nat n)"
proof -
  have "length (str_of_nat n) = 1 \<or> hd (str_of_nat n) \<noteq> 48"
    using str_of_nat_leading [of n] by auto
  then show ?thesis
    by (simp add: is_decimal_numeral_def str_of_nat_not_Nil str_of_nat_digits
        decimal_str_of_nat)
qed

lemma decimal_positive:
  "list_all (\<lambda>c. 48 \<le> c \<and> c \<le> 57) s \<Longrightarrow> s \<noteq> [] \<Longrightarrow> hd s \<noteq> 48 \<Longrightarrow> 0 < decimal s"
proof (induction s rule: rev_induct)
  case Nil
  then show ?case by simp
next
  case (snoc c s)
  show ?case
  proof (cases "s = []")
    case True
    with snoc.prems show ?thesis
      by (simp add: decimal_def)
  next
    case False
    with snoc have "0 < decimal s"
      by simp
    then show ?thesis
      by (simp add: decimal_snoc)
  qed
qed

lemma decimal_numeral_unique:
  "is_decimal_numeral n s \<Longrightarrow> s = str_of_nat n"
proof (induction n arbitrary: s rule: str_of_nat.induct)
  case (1 n)
  from "1.prems" have ne: "s \<noteq> []"
    and dig: "list_all (\<lambda>c. 48 \<le> c \<and> c \<le> 57) s"
    and lead: "length s = 1 \<or> hd s \<noteq> 48"
    and val: "decimal s = n"
    by (simp_all add: is_decimal_numeral_def)
  define b where "b = butlast s"
  define c where "c = last s"
  from ne have s: "s = b @ [c]"
    by (simp add: b_def c_def)
  from dig s have cd: "48 \<le> c" "c \<le> 57" and bd: "list_all (\<lambda>c. 48 \<le> c \<and> c \<le> 57) b"
    by simp_all
  from val s have n: "n = 10 * decimal b + (c - 48)"
    by (simp add: decimal_snoc)
  from cd have small: "c - 48 < 10"
    by simp
  from n small have dv: "n div 10 = decimal b" and md: "n mod 10 = c - 48"
    by simp_all
  from md cd have c: "c = 48 + n mod 10"
    by simp
  show ?case
  proof (cases "n < 10")
    case True
    have "b = []"
    proof (rule ccontr)
      assume bne: "b \<noteq> []"
      with s lead have "hd b \<noteq> 48"
        by (cases b) simp_all
      with bd bne have "0 < decimal b"
        by (rule decimal_positive)
      with dv True show False
        by simp
    qed
    with s c True show ?thesis
      by (simp add: str_of_nat.simps [of n])
  next
    case False
    with dv have "0 < decimal b"
      by simp
    then have bne: "b \<noteq> []"
      by (auto simp: decimal_def)
    with s lead have "hd b \<noteq> 48"
      by (cases b) simp_all
    with bne bd dv have "is_decimal_numeral (n div 10) b"
      by (simp add: is_decimal_numeral_def)
    with "1.IH" False have "b = str_of_nat (n div 10)"
      by simp
    with s c False show ?thesis
      by (simp add: str_of_nat.simps [of n])
  qed
qed

text \<open>
  C5. When the lowercase form of the question holds \<open>shape\<close> or \<open>size\<close> and none
  of \<open>describe\<close>, \<open>statistics\<close>, \<open>columns\<close> and \<open>fields\<close>, and the session
  holds a dataset, \<open>describe_dataset\<close> returns the sentence with the two components
  of the dataset's shape: the number of its rows and the number of its columns, each
  written as its decimal numeral, that is, as the one string of digits without a
  leading zero that reads as that number.
\<close>

theorem describe_dataset_shape:
  assumes "sublist (ustr ''shape'') (lower ucd q) \<or> sublist (ustr ''size'') (lower ucd q)"
    and "\<not> sublist (ustr ''describe'') (lower ucd q)"
    and "\<not> sublist (ustr ''statistics'') (lower ucd q)"
    and "\<not> sublist (ustr ''columns'') (lower ucd q)"
    and "\<not> sublist (ustr ''fields'') (lower ucd q)"
    and "df st = Some d"
    and "shape d = (rows, cols)"
  shows "describe_dataset pd ucd st q =
           Inr (ustr ''The dataset has '' @ str_of_nat rows @ ustr '' rows and ''
                @ str_of_nat cols @ ustr '' columns.'')
       \<and> (\<exists>t. describe_dataset pd ucd st q = Inr t
              \<and> sublist (str_of_nat rows) t \<and> sublist (str_of_nat cols) t)
       \<and> rows = length (df_rows d) \<and> cols = length (df_columns d)
       \<and> decimal (str_of_nat rows) = rows \<and> decimal (str_of_nat cols) = cols
       \<and> (\<exists>r c. is_decimal_numeral (length (df_rows d)) r
              \<and> is_decimal_numeral (length (df_columns d)) c
              \<and> describe_dataset pd ucd st q =
                  Inr (ustr ''The dataset has '' @ r @ ustr '' rows and '' @ c
                       @ ustr '' columns.''))
       \<and> (\<forall>s. is_decimal_numeral rows s \<longrightarrow> s = str_of_nat rows)
       \<and> (\<forall>s. is_decimal_numeral cols s \<longrightarrow> s = str_of_nat cols)"
proof -
  let ?t = "ustr ''The dataset has '' @ str_of_nat rows @ ustr '' rows and ''
              @ str_of_nat cols @ ustr '' columns.''"
  from assms have res: "describe_dataset pd ucd st q = Inr ?t"
    by (simp add: describe_dataset_counts row_column_counts_def)
  have r: "sublist (str_of_nat rows) ?t"
    by (rule sublist_appendI)
  have "sublist (str_of_nat cols)
          ((ustr ''The dataset has '' @ str_of_nat rows @ ustr '' rows and '')
           @ str_of_nat cols @ ustr '' columns.'')"
    by (rule sublist_appendI)
  then have c: "sublist (str_of_nat cols) ?t"
    by simp
  from assms(7) have len: "rows = length (df_rows d)" "cols = length (df_columns d)"
    by (simp_all add: shape_def)
  have num: "is_decimal_numeral (length (df_rows d)) (str_of_nat rows)"
    "is_decimal_numeral (length (df_columns d)) (str_of_nat cols)"
    unfolding len by (rule str_of_nat_is_decimal_numeral)+
  from res num have ex: "\<exists>r c. is_decimal_numeral (length (df_rows d)) r
              \<and> is_decimal_numeral (length (df_columns d)) c
              \<and> describe_dataset pd ucd st q =
                  Inr (ustr ''The dataset has '' @ r @ ustr '' rows and '' @ c
                       @ ustr '' columns.'')"
    by blast
  have uniq: "\<forall>s. is_decimal_numeral n s \<longrightarrow> s = str_of_nat n" for n
    by (simp add: decimal_numeral_unique)
  from res r c have sub: "\<exists>t. describe_dataset pd ucd st q = Inr t
              \<and> sublist (str_of_nat rows) t \<and> sublist (str_of_nat cols) t"
    by blast
  have dec: "decimal (str_of_nat rows) = rows" "decimal (str_of_nat cols) = cols"
    by (rule decimal_str_of_nat)+
  from res sub len dec ex uniq [of rows] uniq [of cols] show ?thesis
    by (intro conjI)
qed

theorem describe_dataset_shape_witness:
  "\<forall>pd ucd.
     sublist (ustr ''size'') (lower ucd (ustr ''What is the SIZE of my file?''))
   \<and> \<not> sublist (ustr ''describe'') (lower ucd (ustr ''What is the SIZE of my file?''))
   \<and> \<not> sublist (ustr ''statistics'') (lower ucd (ustr ''What is the SIZE of my file?''))
   \<and> \<not> sublist (ustr ''columns'') (lower ucd (ustr ''What is the SIZE of my file?''))
   \<and> \<not> sublist (ustr ''fields'') (lower ucd (ustr ''What is the SIZE of my file?''))
   \<and> df sample_session = Some sample_frame
   \<and> shape sample_frame = (3, 2)
   \<and> describe_dataset pd ucd sample_session (ustr ''What is the SIZE of my file?'')
       = Inr (ustr ''The dataset has 3 rows and 2 columns.'')
   \<and> df long_session = Some long_frame
   \<and> shape long_frame = (12, 10)
   \<and> describe_dataset pd ucd long_session (ustr ''What is the SIZE of my file?'')
       = Inr (ustr ''The dataset has 12 rows and 10 columns.'')
   \<and> is_decimal_numeral 12 (ustr ''12'') \<and> is_decimal_numeral 10 (ustr ''10'')"
proof (intro allI)
  fix pd :: pandas and ucd :: ucd_lower
  let ?q = "ustr ''What is the SIZE of my file?''"
  have low: "lower ucd ?q = ustr ''what is the size of my file?''"
    by (simp add: lower_ustr) (simp add: ustr_def latin1_lower_def)
  have k: "sublist (ustr ''size'') (lower ucd ?q)"
    unfolding low by (simp add: ustr_def sublist_Cons_right)
  have n1: "\<not> sublist (ustr ''describe'') (lower ucd ?q)"
    unfolding low by (simp add: ustr_def sublist_Cons_right)
  have n2: "\<not> sublist (ustr ''statistics'') (lower ucd ?q)"
    unfolding low by (simp add: ustr_def sublist_Cons_right)
  have n3: "\<not> sublist (ustr ''columns'') (lower ucd ?q)"
    unfolding low by (simp add: ustr_def sublist_Cons_right)
  have n4: "\<not> sublist (ustr ''fields'') (lower ucd ?q)"
    unfolding low by (simp add: ustr_def sublist_Cons_right)
  have f: "df sample_session = Some sample_frame"
    by (simp add: sample_session_def)
  have s: "shape sample_frame = (3, 2)"
    by (simp add: shape_def sample_frame_def)
  have f': "df long_session = Some long_frame"
    by (simp add: long_session_def)
  have s': "shape long_frame = (12, 10)"
    by (simp add: shape_def long_frame_def)
  from k have k': "sublist (ustr ''shape'') (lower ucd ?q) \<or> sublist (ustr ''size'') (lower ucd ?q)"
    by simp
  have "describe_dataset pd ucd sample_session ?q =
           Inr (ustr ''The dataset has '' @ str_of_nat 3 @ ustr '' rows and ''
                @ str_of_nat 2 @ ustr '' columns.'')"
    using describe_dataset_shape [OF k' n1 n2 n3 n4 f s, of pd] by blast
  then have r: "describe_dataset pd ucd sample_session ?q
      = Inr (ustr ''The dataset has 3 rows and 2 columns.'')"
    by (simp add: str_of_nat.simps ustr_def)
  have "describe_dataset pd ucd long_session ?q =
           Inr (ustr ''The dataset has '' @ str_of_nat 12 @ ustr '' rows and ''
                @ str_of_nat 10 @ ustr '' columns.'')"
    using describe_dataset_shape [OF k' n1 n2 n3 n4 f' s', of pd] by blast
  then have r': "describe_dataset pd ucd long_session ?q
      = Inr (ustr ''The dataset has 12 rows and 10 columns.'')"
    by (simp add: str_of_nat.simps ustr_def)
  have num: "is_decimal_numeral 12 (ustr ''12'')" "is_decimal_numeral 10 (ustr ''10'')"
    by (simp_all add: is_decimal_numeral_def decimal_def ustr_def)
  from k n1 n2 n3 n4 f s r f' s' r' num show
    "sublist (ustr ''size'') (lower ucd ?q)
   \<and> \<not> sublist (ustr ''describe'') (lower ucd ?q)
   \<and> \<not> sublist (ustr ''statistics'') (lower ucd ?q)
   \<and> \<not> sublist (ustr ''columns'') (lower ucd ?q)
   \<and> \<not> sublist (ustr ''fields'') (lower ucd ?q)
   \<and> df sample_session = Some sample_frame
   \<and> shape sample_frame = (3, 2)
   \<and> describe_dataset pd ucd sample_session ?q
       = Inr (ustr ''The dataset has 3 rows and 2 columns.'')
   \<and> df long_session = Some long_frame
   \<and> shape long_frame = (12, 10)
   \<and> describe_dataset pd ucd long_session ?q
       = Inr (ustr ''The dataset has 12 rows and 10 columns.'')
   \<and> is_decimal_numeral 12 (ustr ''12'') \<and> is_decimal_numeral 10 (ustr ''10'')"
    by blast
qed

text \<open>
  C6. When the lowercase form of the question holds none of the seven keywords,
  \<open>describe_dataset\<close> returns the clarification message, letter for letter, and does
  not raise, whatever the session holds.
\<close>

theorem describe_dataset_clarification:
  assumes "\<not> sublist (ustr ''describe'') (lower ucd q)"
    and "\<not> sublist (ustr ''statistics'') (lower ucd q)"
    and "\<not> sublist (ustr ''columns'') (lower ucd q)"
    and "\<not> sublist (ustr ''fields'') (lower ucd q)"
    and "\<not> sublist (ustr ''shape'') (lower ucd q)"
    and "\<not> sublist (ustr ''size'') (lower ucd q)"
    and "\<not> sublist (ustr ''sample'') (lower ucd q)"
  shows "describe_dataset pd ucd st q =
     Inr (ustr ''I'm sorry, I couldn't understand your request about the dataset. Could you please be more specific? You can ask about the dataset's description, statistics, columns, shape, or a sample of the data.'')"
  using assms by (simp add: describe_dataset_def clarification_def)

theorem describe_dataset_clarification_witness:
  "\<forall>pd ucd st.
     \<not> sublist (ustr ''describe'') (lower ucd (ustr ''unknown request''))
   \<and> \<not> sublist (ustr ''statistics'') (lower ucd (ustr ''unknown request''))
   \<and> \<not> sublist (ustr ''columns'') (lower ucd (ustr ''unknown request''))
   \<and> \<not> sublist (ustr ''fields'') (lower ucd (ustr ''unknown request''))
   \<and> \<not> sublist (ustr ''shape'') (lower ucd (ustr ''unknown request''))
   \<and> \<not> sublist (ustr ''size'') (lower ucd (ustr ''unknown request''))
   \<and> \<not> sublist (ustr ''sample'') (lower ucd (ustr ''unknown request''))
   \<and> describe_dataset pd ucd st (ustr ''unknown request'') =
     Inr (ustr ''I'm sorry, I couldn't understand your request about the dataset. Could you please be more specific? You can ask about the dataset's description, statistics, columns, shape, or a sample of the data.'')"
proof (intro allI)
  fix pd :: pandas and ucd :: ucd_lower and st :: session_state
  let ?q = "ustr ''unknown request''"
  have low: "lower ucd ?q = ustr ''unknown request''"
    by (simp add: lower_ustr) (simp add: ustr_def latin1_lower_def)
  have n1: "\<not> sublist (ustr ''describe'') (lower ucd ?q)"
    unfolding low by (simp add: ustr_def sublist_Cons_right)
  have n2: "\<not> sublist (ustr ''statistics'') (lower ucd ?q)"
    unfolding low by (simp add: ustr_def sublist_Cons_right)
  have n3: "\<not> sublist (ustr ''columns'') (lower ucd ?q)"
    unfolding low by (simp add: ustr_def sublist_Cons_right)
  have n4: "\<not> sublist (ustr ''fields'') (lower ucd ?q)"
    unfolding low by (simp add: ustr_def sublist_Cons_right)
  have n5: "\<not> sublist (ustr ''shape'') (lower ucd ?q)"
    unfolding low by (simp add: ustr_def sublist_Cons_right)
  have n6: "\<not> sublist (ustr ''size'') (lower ucd ?q)"
    unfolding low by (simp add: ustr_def sublist_Cons_right)
  have n7: "\<not> sublist (ustr ''sample'') (lower ucd ?q)"
    unfolding low by (simp add: ustr_def sublist_Cons_right)
  note r = describe_dataset_clarification [OF n1 n2 n3 n4 n5 n6 n7, of pd st]
  from n1 n2 n3 n4 n5 n6 n7 r show
    "\<not> sublist (ustr ''describe'') (lower ucd ?q)
   \<and> \<not> sublist (ustr ''statistics'') (lower ucd ?q)
   \<and> \<not> sublist (ustr ''columns'') (lower ucd ?q)
   \<and> \<not> sublist (ustr ''fields'') (lower ucd ?q)
   \<and> \<not> sublist (ustr ''shape'') (lower ucd ?q)
   \<and> \<not> sublist (ustr ''size'') (lower ucd ?q)
   \<and> \<not> sublist (ustr ''sample'') (lower ucd ?q)
   \<and> describe_dataset pd ucd st ?q =
     Inr (ustr ''I'm sorry, I couldn't understand your request about the dataset. Could you please be more specific? You can ask about the dataset's description, statistics, columns, shape, or a sample of the data.'')"
    by blast
qed

lemma describe_dataset_lower_only:
  "lower ucd q = lower ucd q' \<Longrightarrow> describe_dataset pd ucd st q = describe_dataset pd ucd st q'"
  by (simp add: describe_dataset_def cong: if_cong)

lemma latin1_lower_idem: "latin1_lower (latin1_lower c) = latin1_lower c"
  by (simp add: latin1_lower_def)

lemma latin1_lower_bound: "c < 0x100 \<Longrightarrow> latin1_lower c < 0x100"
  by (auto simp: latin1_lower_def)

lemma lower_lower_latin1:
  assumes "\<forall>c\<in>set q. c < 0x100"
  shows "lower ucd (lower ucd q) = lower ucd q"
proof -
  from assms have l: "lower ucd q = map latin1_lower q"
    by (rule lower_latin1)
  from assms have "\<forall>c\<in>set (map latin1_lower q). c < 0x100"
    by (auto simp: latin1_lower_bound)
  then have "lower ucd (map latin1_lower q) = map latin1_lower (map latin1_lower q)"
    by (rule lower_latin1)
  with l show ?thesis
    by (simp add: latin1_lower_idem)
qed

lemma upper_ascii:
  assumes "\<forall>c\<in>set q. c < 0x80"
  shows "upper uu q = map (\<lambda>c. if 0x61 \<le> c \<and> c \<le> 0x7A then c - 32 else c) q"
proof -
  have "map (\<lambda>c. if c < 0x100 then latin1_upper c else uu c) q
      = map (\<lambda>c. [if 0x61 \<le> c \<and> c \<le> 0x7A then c - 32 else c]) q"
    by (rule map_cong) (use assms in \<open>auto simp: latin1_upper_def\<close>)
  then show ?thesis
    unfolding upper_def by (simp only: concat_map_singleton)
qed

lemma lower_upper_ascii:
  assumes "\<forall>c\<in>set q. c < 0x80"
  shows "lower ucd (upper uu q) = lower ucd q"
proof -
  let ?up = "\<lambda>c::nat. if 0x61 \<le> c \<and> c \<le> 0x7A then c - 32 else c"
  from assms have u: "upper uu q = map ?up q"
    by (rule upper_ascii)
  from assms have "\<forall>c\<in>set (map ?up q). c < 0x100"
    by auto
  then have "lower ucd (map ?up q) = map latin1_lower (map ?up q)"
    by (rule lower_latin1)
  also have "\<dots> = map latin1_lower q"
    using assms by (auto simp: latin1_lower_def)
  also have "\<dots> = lower ucd q"
    using assms by (intro lower_latin1 [symmetric]) auto
  finally show ?thesis
    by (simp only: u)
qed

text \<open>
  C9, as amended. \<open>describe_dataset\<close> reads its question through \<open>lower\<close> only:
  two questions with the same lowercase form get the same answer. So the uppercased
  variant of a question made of ASCII code points gets the answer of the question, and
  so does the lowercased variant of a question made of code points below U+0100.
  Beyond ASCII the uppercased variant may differ: \<open>upper\<close> turns the sharp s into
  \<open>SS\<close>, which \<open>lower\<close> does not undo.
\<close>

theorem describe_dataset_case_variants:
  "(lower ucd q = lower ucd q' \<longrightarrow>
      describe_dataset pd ucd st q = describe_dataset pd ucd st q')
   \<and> (list_all (\<lambda>c. c < 0x80) q \<longrightarrow>
        describe_dataset pd ucd st (upper uu q) = describe_dataset pd ucd st q)
   \<and> (list_all (\<lambda>c. c < 0x100) q \<longrightarrow>
        describe_dataset pd ucd st (lower ucd q) = describe_dataset pd ucd st q)"
proof (intro conjI impI)
  assume "lower ucd q = lower ucd q'"
  then show "describe_dataset pd ucd st q = describe_dataset pd ucd st q'"
    by (rule describe_dataset_lower_only)
next
  assume "list_all (\<lambda>c. c < 0x80) q"
  then have "lower ucd (upper uu q) = lower ucd q"
    by (intro lower_upper_ascii) (simp add: list_all_iff)
  then show "describe_dataset pd ucd st (upper uu q) = describe_dataset pd ucd st q"
    by (rule describe_dataset_lower_only)
next
  assume "list_all (\<lambda>c. c < 0x100) q"
  then have "lower ucd (lower ucd q) = lower ucd q"
    by (intro lower_lower_latin1) (simp add: list_all_iff)
  then show "describe_dataset pd ucd st (lower ucd q) = describe_dataset pd ucd st q"
    by (rule describe_dataset_lower_only)
qed

theorem describe_dataset_case_variants_witness:
  "\<forall>pd ucd uu.
     list_all (\<lambda>c. c < 0x80) (ustr ''Show Fields'')
   \<and> upper uu (ustr ''Show Fields'') = ustr ''SHOW FIELDS''
   \<and> lower ucd (ustr ''Show Fields'') = ustr ''show fields''
   \<and> lower ucd (ustr ''SHOW FIELDS'') = lower ucd (ustr ''Show Fields'')
   \<and> describe_dataset pd ucd sample_session (ustr ''SHOW FIELDS'')
       = describe_dataset pd ucd sample_session (ustr ''Show Fields'')
   \<and> describe_dataset pd ucd sample_session (ustr ''show fields'')
       = describe_dataset pd ucd sample_session (ustr ''Show Fields'')
   \<and> describe_dataset pd ucd sample_session (ustr ''Show Fields'')
       = Inr (ustr ''The dataset contains the following columns: name, age'')"
proof (intro allI)
  fix pd :: pandas and ucd :: ucd_lower and uu :: ucd_upper
  let ?q = "ustr ''Show Fields''"
  have a: "list_all (\<lambda>c. c < 0x80) ?q"
    by (simp add: ustr_def)
  then have a': "list_all (\<lambda>c. c < 0x100) ?q"
    by (simp add: ustr_def)
  from a have "upper uu ?q = map (\<lambda>c. if 0x61 \<le> c \<and> c \<le> 0x7A then c - 32 else c) ?q"
    by (intro upper_ascii) (simp add: list_all_iff)
  then have up: "upper uu ?q = ustr ''SHOW FIELDS''"
    by (simp add: ustr_def)
  have low: "lower ucd ?q = ustr ''show fields''"
    by (simp add: lower_ustr) (simp add: ustr_def latin1_lower_def)
  have low2: "lower ucd (ustr ''SHOW FIELDS'') = ustr ''show fields''"
    by (simp add: lower_ustr) (simp add: ustr_def latin1_lower_def)
  note t = describe_dataset_case_variants [of ucd ?q "ustr ''SHOW FIELDS''" pd sample_session uu]
  from t a have "describe_dataset pd ucd sample_session (upper uu ?q)
      = describe_dataset pd ucd sample_session ?q"
    by blast
  then have r1: "describe_dataset pd ucd sample_session (ustr ''SHOW FIELDS'')
      = describe_dataset pd ucd sample_session ?q"
    by (simp only: up)
  from t a' have "describe_dataset pd ucd sample_session (lower ucd ?q)
      = describe_dataset pd ucd sample_session ?q"
    by blast
  then have r2: "describe_dataset pd ucd sample_session (ustr ''show fields'')
      = describe_dataset pd ucd sample_session ?q"
    by (simp only: low)
  have f: "sublist (ustr ''fields'') (lower ucd ?q)"
    unfolding low by (simp add: ustr_def sublist_Cons_right)
  have n1: "\<not> sublist (ustr ''describe'') (lower ucd ?q)"
    unfolding low by (simp add: ustr_def sublist_Cons_right)
  have n2: "\<not> sublist (ustr ''statistics'') (lower ucd ?q)"
    unfolding low by (simp add: ustr_def sublist_Cons_right)
  from f n1 n2 have "describe_dataset pd ucd sample_session ?q
      = column_listing (df sample_session)"
    by (simp add: describe_dataset_def)
  also have "\<dots> = Inr (ustr ''The dataset contains the following columns: name, age'')"
    by (simp add: column_listing_def sample_session_def sample_frame_def ustr_def)
  finally have r3: "describe_dataset pd ucd sample_session ?q
      = Inr (ustr ''The dataset contains the following columns: name, age'')" .
  from a up low low2 r1 r2 r3 show
    "list_all (\<lambda>c. c < 0x80) ?q
   \<and> upper uu ?q = ustr ''SHOW FIELDS''
   \<and> lower ucd ?q = ustr ''show fields''
   \<and> lower ucd (ustr ''SHOW FIELDS'') = lower ucd ?q
   \<and> describe_dataset pd ucd sample_session (ustr ''SHOW FIELDS'')
       = describe_dataset pd ucd sample_session ?q
   \<and> describe_dataset pd ucd sample_session (ustr ''show fields'')
       = describe_dataset pd ucd sample_session ?q
   \<and> describe_dataset pd ucd sample_session ?q
       = Inr (ustr ''The dataset contains the following columns: name, age'')"
    by simp
qed

theorem describe_dataset_case_variants_counterexample:
  "\<forall>pd ucd uu.
     upper uu [0xDF, 0x69, 0x7A, 0x65] = ustr ''SSIZE''
   \<and> lower ucd [0xDF, 0x69, 0x7A, 0x65] = [0xDF, 0x69, 0x7A, 0x65]
   \<and> describe_dataset pd ucd sample_session [0xDF, 0x69, 0x7A, 0x65] = Inr clarification
   \<and> describe_dataset pd ucd sample_session (upper uu [0xDF, 0x69, 0x7A, 0x65])
       = Inr (ustr ''The dataset has 3 rows and 2 columns.'')
   \<and> describe_dataset pd ucd sample_session (upper uu [0xDF, 0x69, 0x7A, 0x65])
       \<noteq> describe_dataset pd ucd sample_session [0xDF, 0x69, 0x7A, 0x65]"
proof (intro allI)
  fix pd :: pandas and ucd :: ucd_lower and uu :: ucd_upper
  let ?q = "[0xDF, 0x69, 0x7A, 0x65] :: str"
  have up: "upper uu ?q = ustr ''SSIZE''"
    by (simp add: upper_def latin1_upper_def ustr_def)
  have "lower ucd ?q = map latin1_lower ?q"
    by (rule lower_latin1) simp
  then have low: "lower ucd ?q = ?q"
    by (simp add: latin1_lower_def)
  have low2: "lower ucd (ustr ''SSIZE'') = ustr ''ssize''"
    by (simp add: lower_ustr) (simp add: ustr_def latin1_lower_def)
  have r1: "describe_dataset pd ucd sample_session ?q = Inr clarification"
    unfolding describe_dataset_def low by (simp add: ustr_def sublist_Cons_right)
  have "describe_dataset pd ucd sample_session (ustr ''SSIZE'')
      = row_column_counts (df sample_session)"
    unfolding describe_dataset_def low2 by (simp add: ustr_def sublist_Cons_right)
  also have "\<dots> = Inr (ustr ''The dataset has 3 rows and 2 columns.'')"
    by (simp add: row_column_counts_def sample_session_def sample_frame_def shape_def
        str_of_nat.simps ustr_def)
  finally have r2: "describe_dataset pd ucd sample_session (upper uu ?q)
      = Inr (ustr ''The dataset has 3 rows and 2 columns.'')"
    by (simp only: up)
  have "ustr ''The dataset has 3 rows and 2 columns.'' \<noteq> clarification"
    by (simp add: clarification_def ustr_def)
  with up low r1 r2 show
    "upper uu ?q = ustr ''SSIZE''
   \<and> lower ucd ?q = ?q
   \<and> describe_dataset pd ucd sample_session ?q = Inr clarification
   \<and> describe_dataset pd ucd sample_session (upper uu ?q)
       = Inr (ustr ''The dataset has 3 rows and 2 columns.'')
   \<and> describe_dataset pd ucd sample_session (upper uu ?q)
       \<noteq> describe_dataset pd ucd sample_session ?q"
    by simp
qed

text \<open>
  C10, as amended. The keywords are matched as runs of code points anywhere in the
  lowercase form of the question, inside a longer word too: whatever stands before and
  after the keyword, the branch of the keyword answers, provided that no keyword of an
  earlier branch occurs as well. For \<open>describe\<close> and \<open>statistics\<close> there is no
  earlier branch.
\<close>

theorem describe_dataset_substring:
  "(lower ucd q = l @ ustr ''describe'' @ r \<longrightarrow>
      describe_dataset pd ucd st q = summary_statistics pd (df st))
   \<and> (lower ucd q = l @ ustr ''statistics'' @ r \<longrightarrow>
      describe_dataset pd ucd st q = summary_statistics pd (df st))
   \<and> (lower ucd q = l @ ustr ''columns'' @ r
        \<and> \<not> sublist (ustr ''describe'') (lower ucd q)
        \<and> \<not> sublist (ustr ''statistics'') (lower ucd q) \<longrightarrow>
      describe_dataset pd ucd st q = column_listing (df st))
   \<and> (lower ucd q = l @ ustr ''fields'' @ r
        \<and> \<not> sublist (ustr ''describe'') (lower ucd q)
        \<and> \<not> sublist (ustr ''statistics'') (lower ucd q) \<longrightarrow>
      describe_dataset pd ucd st q = column_listing (df st))
   \<and> (lower ucd q = l @ ustr ''shape'' @ r
        \<and> \<not> sublist (ustr ''describe'') (lower ucd q)
        \<and> \<not> sublist (ustr ''statistics'') (lower ucd q)
        \<and> \<not> sublist (ustr ''columns'') (lower ucd q)
        \<and> \<not> sublist (ustr ''fields'') (lower ucd q) \<longrightarrow>
      describe_dataset pd ucd st q = row_column_counts (df st))
   \<and> (lower ucd q = l @ ustr ''size'' @ r
        \<and> \<not> sublist (ustr ''describe'') (lower ucd q)
        \<and> \<not> sublist (ustr ''statistics'') (lower ucd q)
        \<and> \<not> sublist (ustr ''columns'') (lower ucd q)
        \<and> \<not> sublist (ustr ''fields'') (lower ucd q) \<longrightarrow>
      describe_dataset pd ucd st q = row_column_counts (df st))
   \<and> (lower ucd q = l @ ustr ''sample'' @ r
        \<and> \<not> sublist (ustr ''describe'') (lower ucd q)
        \<and> \<not> sublist (ustr ''statistics'') (lower ucd q)
        \<and> \<not> sublist (ustr ''columns'') (lower ucd q)
        \<and> \<not> sublist (ustr ''fields'') (lower ucd q)
        \<and> \<not> sublist (ustr ''shape'') (lower ucd q)
        \<and> \<not> sublist (ustr ''size'') (lower ucd q) \<longrightarrow>
      describe_dataset pd ucd st q = first_rows pd (df st))"
proof -
  have occurs: "sublist k (lower ucd q)" if "lower ucd q = l @ k @ r" for k
    using that by simp
  show ?thesis
    by (intro conjI impI) (auto simp: describe_dataset_def dest: occurs)
qed

theorem describe_dataset_substring_witness:
  "\<forall>pd ucd.
     lower ucd (ustr ''Emphasize'') = ustr ''empha'' @ ustr ''size'' @ []
   \<and> \<not> sublist (ustr ''describe'') (lower ucd (ustr ''Emphasize''))
   \<and> \<not> sublist (ustr ''statistics'') (lower ucd (ustr ''Emphasize''))
   \<and> \<not> sublist (ustr ''columns'') (lower ucd (ustr ''Emphasize''))
   \<and> \<not> sublist (ustr ''fields'') (lower ucd (ustr ''Emphasize''))
   \<and> describe_dataset pd ucd sample_session (ustr ''Emphasize'')
       = Inr (ustr ''The dataset has 3 rows and 2 columns.'')
   \<and> lower ucd (ustr ''I described it'') = ustr ''i '' @ ustr ''describe'' @ ustr ''d it''
   \<and> describe_dataset pd ucd sample_session (ustr ''I described it'')
       = summary_statistics pd (Some sample_frame)"
proof (intro allI)
  fix pd :: pandas and ucd :: ucd_lower
  let ?q = "ustr ''Emphasize''" and ?p = "ustr ''I described it''"
  have low: "lower ucd ?q = ustr ''empha'' @ ustr ''size'' @ []"
    by (simp add: lower_ustr) (simp add: ustr_def latin1_lower_def)
  then have low': "lower ucd ?q = ustr ''emphasize''"
    by (simp add: ustr_def)
  have n1: "\<not> sublist (ustr ''describe'') (lower ucd ?q)"
    unfolding low' by (simp add: ustr_def sublist_Cons_right)
  have n2: "\<not> sublist (ustr ''statistics'') (lower ucd ?q)"
    unfolding low' by (simp add: ustr_def sublist_Cons_right)
  have n3: "\<not> sublist (ustr ''columns'') (lower ucd ?q)"
    unfolding low' by (simp add: ustr_def sublist_Cons_right)
  have n4: "\<not> sublist (ustr ''fields'') (lower ucd ?q)"
    unfolding low' by (simp add: ustr_def sublist_Cons_right)
  from low n1 n2 n3 n4
    describe_dataset_substring [of ucd ?q "ustr ''empha''" "[]" pd sample_session]
  have "describe_dataset pd ucd sample_session ?q = row_column_counts (df sample_session)"
    by blast
  also have "\<dots> = Inr (ustr ''The dataset has 3 rows and 2 columns.'')"
    by (simp add: row_column_counts_def sample_session_def sample_frame_def shape_def
        str_of_nat.simps ustr_def)
  finally have r1: "describe_dataset pd ucd sample_session ?q
      = Inr (ustr ''The dataset has 3 rows and 2 columns.'')" .
  have lowp: "lower ucd ?p = ustr ''i '' @ ustr ''describe'' @ ustr ''d it''"
    by (simp add: lower_ustr) (simp add: ustr_def latin1_lower_def)
  with describe_dataset_substring [of ucd ?p "ustr ''i ''" "ustr ''d it''" pd sample_session]
  have "describe_dataset pd ucd sample_session ?p = summary_statistics pd (df sample_session)"
    by blast
  then have r2: "describe_dataset pd ucd sample_session ?p
      = summary_statistics pd (Some sample_frame)"
    by (simp add: sample_session_def)
  from low n1 n2 n3 n4 r1 lowp r2 show
    "lower ucd ?q = ustr ''empha'' @ ustr ''size'' @ []
   \<and> \<not> sublist (ustr ''describe'') (lower ucd ?q)
   \<and> \<not> sublist (ustr ''statistics'') (lower ucd ?q)
   \<and> \<not> sublist (ustr ''columns'') (lower ucd ?q)
   \<and> \<not> sublist (ustr ''fields'') (lower ucd ?q)
   \<and> describe_dataset pd ucd sample_session ?q
       = Inr (ustr ''The dataset has 3 rows and 2 columns.'')
   \<and> lower ucd ?p = ustr ''i '' @ ustr ''describe'' @ ustr ''d it''
   \<and> describe_dataset pd ucd sample_session ?p
       = summary_statistics pd (Some sample_frame)"
    by blast
qed

theorem describe_dataset_substring_counterexample:
  "\<forall>pd ucd.
     lower ucd (ustr ''emphasize columns'') = ustr ''empha'' @ ustr ''size'' @ ustr '' columns''
   \<and> row_column_counts (df sample_session)
       = Inr (ustr ''The dataset has 3 rows and 2 columns.'')
   \<and> describe_dataset pd ucd sample_session (ustr ''emphasize columns'')
       = Inr (ustr ''The dataset contains the following columns: name, age'')
   \<and> describe_dataset pd ucd sample_session (ustr ''emphasize columns'')
       \<noteq> row_column_counts (df sample_session)"
proof (intro allI)
  fix pd :: pandas and ucd :: ucd_lower
  let ?q = "ustr ''emphasize columns''"
  have low: "lower ucd ?q = ustr ''emphasize columns''"
    by (simp add: lower_ustr) (simp add: ustr_def latin1_lower_def)
  then have low': "lower ucd ?q = ustr ''empha'' @ ustr ''size'' @ ustr '' columns''"
    by (simp add: ustr_def)
  have counts: "row_column_counts (df sample_session)
      = Inr (ustr ''The dataset has 3 rows and 2 columns.'')"
    by (simp add: row_column_counts_def sample_session_def sample_frame_def shape_def
        str_of_nat.simps ustr_def)
  have "describe_dataset pd ucd sample_session ?q = column_listing (df sample_session)"
    unfolding describe_dataset_def low by (simp add: ustr_def sublist_Cons_right)
  also have "\<dots> = Inr (ustr ''The dataset contains the following columns: name, age'')"
    by (simp add: column_listing_def sample_session_def sample_frame_def ustr_def)
  finally have r: "describe_dataset pd ucd sample_session ?q
      = Inr (ustr ''The dataset contains the following columns: name, age'')" .
  have "ustr ''The dataset contains the following columns: name, age''
      \<noteq> ustr ''The dataset has 3 rows and 2 columns.''"
    by (simp add: ustr_def)
  with low' counts r show
    "lower ucd ?q = ustr ''empha'' @ ustr ''size'' @ ustr '' columns''
   \<and> row_column_counts (df sample_session)
       = Inr (ustr ''The dataset has 3 rows and 2 columns.'')
   \<and> describe_dataset pd ucd sample_session ?q
       = Inr (ustr ''The dataset contains the following columns: name, age'')
   \<and> describe_dataset pd ucd sample_session ?q \<noteq> row_column_counts (df sample_session)"
    by simp
qed

section \<open>Properties of the tabular store\<close>

lemma fold_db: "map sqlite_fold (ustr ''db'') = ustr ''db''"
  by (simp add: ustr_def sqlite_fold_def)

lemma get_sqlite_engine_body_fresh:
  assumes "engine st = None" and "sqlite_creates (df_columns d)"
    and "backend_refuses w d = None"
  shows "get_sqlite_engine_body (Inr d) w st =
     (Inr (Engine (engines w)),
      w\<lparr>database := (database w)(ustr ''db'' \<mapsto> d),
        engines := Suc (engines w),
        effects := effects w @ [LoadCsv, CreateEngine, DropTable (ustr ''db''),
                     DropTable (ustr ''db''), ToSql (ustr ''db'')]\<rparr>,
      st\<lparr>engine := Some (Engine (engines w)), df := Some d, columns := Some (df_columns d)\<rparr>)"
  using assms
  by (simp add: get_sqlite_engine_body_def create_engine_def drop_table_if_exists_def
      to_sql_def Let_def fold_db)


lemma get_sqlite_engine_cached:
  assumes "get_sqlite_engine load w st = (Inr e, w', st')"
  shows "resource_cache w' = Some e"
    and "get_sqlite_engine load' w' st' = (Inr e, w', st')"
proof -
  show c: "resource_cache w' = Some e"
  proof (cases "resource_cache w")
    case None
    with assms show ?thesis
      by (auto simp: get_sqlite_engine_def split: prod.splits sum.splits)
  next
    case (Some a)
    with assms show ?thesis
      by (simp add: get_sqlite_engine_def)
  qed
  then show "get_sqlite_engine load' w' st' = (Inr e, w', st')"
    by (simp add: get_sqlite_engine_def)
qed




text \<open>
  C4 fails on the code where a second session begins on a server that has served a
  first one. The first session acquires the engine: the dataset is loaded, the table
  dropped twice and written, five effects in all. The second session, with a fresh
  state and another dataset, calls \<open>get_sqlite_engine\<close> and receives the engine of the
  first from the resource cache: the body does not run, no effect is added, the state
  of the second session keeps no engine, no dataset and no column list, and the table
  \<open>db\<close> still holds the three rows of the first session's dataset. So the table is
  not dropped and reloaded once in every session. Within one session the claim holds,
  by \<open>get_sqlite_engine_cached\<close>: a call after one that returned an engine returns
  the same engine and changes neither the server nor the session.
\<close>

theorem get_sqlite_engine_second_session:
  "\<exists>w1 st1.
     get_sqlite_engine (Inr sample_frame) new_server new_session = (Inr (Engine 0), w1, st1)
   \<and> effects w1 = [LoadCsv, CreateEngine, DropTable (ustr ''db''), DropTable (ustr ''db''),
                    ToSql (ustr ''db'')]
   \<and> get_sqlite_engine (Inr second_frame) w1 new_session = (Inr (Engine 0), w1, new_session)
   \<and> engine new_session = None \<and> df new_session = None \<and> columns new_session = None
   \<and> select_count (ustr ''db'') w1 = Some 3
   \<and> database w1 (ustr ''db'') \<noteq> Some second_frame"
proof -
  let ?w1 = "new_server\<lparr>database := (database new_server)(ustr ''db'' \<mapsto> sample_frame),
        engines := Suc (engines new_server),
        effects := effects new_server @ [LoadCsv, CreateEngine, DropTable (ustr ''db''),
                     DropTable (ustr ''db''), ToSql (ustr ''db'')],
        resource_cache := Some (Engine (engines new_server))\<rparr>"
  let ?st1 = "new_session\<lparr>engine := Some (Engine (engines new_server)),
        df := Some sample_frame, columns := Some (df_columns sample_frame)\<rparr>"
  have n: "engine new_session = None" "df new_session = None" "columns new_session = None"
    by (simp_all add: new_session_def)
  have first: "get_sqlite_engine (Inr sample_frame) new_server new_session
      = (Inr (Engine 0), ?w1, ?st1)"
  proof -
    have "resource_cache new_server = None" and "engines new_server = 0"
      by (simp_all add: new_server_def)
    moreover have "sqlite_creates (df_columns sample_frame)"
      by (simp add: sqlite_creates_def sample_frame_def ustr_def sqlite_fold_def)
    moreover have "backend_refuses new_server sample_frame = None"
      by (simp add: new_server_def)
    ultimately show ?thesis
      by (simp add: get_sqlite_engine_def get_sqlite_engine_body_fresh [OF n(1)])
  qed
  have eff: "effects ?w1 = [LoadCsv, CreateEngine, DropTable (ustr ''db''),
      DropTable (ustr ''db''), ToSql (ustr ''db'')]"
    by (simp add: new_server_def)
  have second: "get_sqlite_engine (Inr second_frame) ?w1 new_session
      = (Inr (Engine 0), ?w1, new_session)"
    by (simp add: get_sqlite_engine_def) (simp add: new_server_def)
  have cnt: "select_count (ustr ''db'') ?w1 = Some 3"
    by (simp add: select_count_def sample_frame_def fold_db)
  have ne: "database ?w1 (ustr ''db'') \<noteq> Some second_frame"
    by (simp add: sample_frame_def second_frame_def)
  from first eff second n cnt ne show ?thesis
    by blast
qed

end
